theory Spec2Isabelle
  imports Complex_Main "HOL-Library.AList"
begin

unbundle bit_operations_syntax

section \<open>The QR scanner of \<open>qr_scanner.py\<close>\<close>

text \<open>
  The scanner polls a remote store for camera frames, detects codes in every new frame,
  filters them through a cooldown table and reacts to the accepted ones. The embedding
  follows the source function by function. Wall-clock readings (\<open>time.time()\<close>) are
  real numbers; the dictionary \<open>recent_qrs\<close> is an association list in insertion order,
  as a Python dictionary is, with pairwise different keys.
\<close>

subsection \<open>Settings\<close>

definition CHECK_INTERVAL :: real where
  "CHECK_INTERVAL = 1 / 2"

definition SCAN_COOLDOWN :: real where
  "SCAN_COOLDOWN = 5"

subsection \<open>The cooldown table\<close>

type_synonym recent = "(string \<times> real) list"

text \<open>
  \<open>should_process_qr\<close>: \<open>current_time\<close> is the reading of the clock the call makes.
  The result is the returned flag and the table after the call.
\<close>

definition should_process_qr :: "real \<Rightarrow> string \<Rightarrow> recent \<Rightarrow> bool \<times> recent" where
  "should_process_qr current_time qr_data recent_qrs =
     (case map_of recent_qrs qr_data of
        Some last_scan_time \<Rightarrow>
          if current_time - last_scan_time < SCAN_COOLDOWN then (False, recent_qrs)
          else (True, AList.update qr_data current_time recent_qrs)
      | None \<Rightarrow> (True, AList.update qr_data current_time recent_qrs))"

text \<open>
  \<open>clean_old_qrs\<close>: the keys to drop are collected first, then deleted one by one.
\<close>

definition expired_qrs :: "real \<Rightarrow> recent \<Rightarrow> string list" where
  "expired_qrs current_time recent_qrs =
     map fst (filter (\<lambda>(qr, timestamp). current_time - timestamp > SCAN_COOLDOWN * 2) recent_qrs)"

definition clean_old_qrs :: "real \<Rightarrow> recent \<Rightarrow> recent" where
  "clean_old_qrs current_time recent_qrs =
     fold AList.delete (expired_qrs current_time recent_qrs) recent_qrs"

subsection \<open>Values read from JSON\<close>

text \<open>
  The fields \<open>frame\<close> and \<open>timestamp\<close> of the store's answer are JSON scalars, which
  Python reads as \<open>None\<close>, a \<open>bool\<close>, a number or a \<open>str\<close>. \<open>truthy\<close> is Python's
  truth test and \<open>py_eq\<close> its \<open>==\<close> on these values (a \<open>bool\<close> compares as the number
  0 or 1; numbers are taken by their value).
\<close>

datatype pyval = PNone | PBool bool | PNum real | PStr string

fun truthy :: "pyval \<Rightarrow> bool" where
  "truthy PNone = False"
| "truthy (PBool b) = b"
| "truthy (PNum x) = (x \<noteq> 0)"
| "truthy (PStr s) = (s \<noteq> [])"

fun py_eq :: "pyval \<Rightarrow> pyval \<Rightarrow> bool" where
  "py_eq PNone PNone = True"
| "py_eq (PBool a) (PBool b) = (a = b)"
| "py_eq (PBool a) (PNum y) = ((if a then 1 else 0) = y)"
| "py_eq (PNum x) (PBool b) = (x = (if b then 1 else 0))"
| "py_eq (PNum x) (PNum y) = (x = y)"
| "py_eq (PStr s) (PStr t) = (s = t)"
| "py_eq _ _ = False"

subsection \<open>Fetching a frame\<close>

text \<open>
  What \<open>requests.get\<close> and \<open>response.json()\<close> can give: the request raises; or there
  is a response with a status code whose body is not JSON (\<open>json()\<close> raises), is a JSON
  object, or is any other JSON value. For a value that is not an object the test
  \<open>data and 'frame' in data\<close> is false or raises, or \<open>data['frame']\<close> raises; each of
  these ends in \<open>return None, None\<close>.
\<close>

datatype json_body = NotJson | JsonObject "string \<rightharpoonup> pyval" | JsonOther

datatype response = RequestError | Response nat json_body

definition fetch_camera_frame :: "response \<Rightarrow> pyval \<times> pyval" where
  "fetch_camera_frame r =
     (case r of
        RequestError \<Rightarrow> (PNone, PNone)
      | Response status_code body \<Rightarrow>
          if status_code = 200 then
            (case body of
               NotJson \<Rightarrow> (PNone, PNone)
             | JsonOther \<Rightarrow> (PNone, PNone)
             | JsonObject data \<Rightarrow>
                 (case data ''frame'' of
                    Some frame \<Rightarrow>
                      (frame, (case data ''timestamp'' of Some t \<Rightarrow> t | None \<Rightarrow> PStr ''unknown''))
                  | None \<Rightarrow> (PNone, PNone)))
          else (PNone, PNone))"

subsection \<open>External capabilities\<close>

text \<open>
  The libraries the scanner calls are parameters of the model. \<open>None\<close> stands for a call
  that raises (for \<open>imdecode\<close> also for a returned \<open>None\<close>). The clock is the sequence
  of its readings: \<open>time_time n\<close> is what the \<open>n\<close>-th reading of the process returns,
  \<open>datetime_now n\<close> the formatted local time at that reading.
\<close>

record qr_event =
  ev_data :: string
  ev_type :: string
  ev_is_url :: bool
  ev_timestamp :: string
  ev_status :: string

record raw_code =
  code_text :: "string option"   \<comment> \<open>\<open>code.data.decode('utf-8')\<close>, \<open>None\<close> when it raises\<close>
  code_type :: string

record 'img capabilities =
  b64decode :: "string \<Rightarrow> string option"
  imdecode :: "string \<Rightarrow> 'img option"
  pyzbar_decode :: "'img \<Rightarrow> raw_code list option"
  bracketed_host_ok :: "string \<Rightarrow> bool"
  nfkc_netloc_ok :: "string \<Rightarrow> bool"
  webbrowser_open :: "string \<Rightarrow> bool option"
  requests_post :: "qr_event \<Rightarrow> nat option"
  time_time :: "nat \<Rightarrow> real"
  datetime_now :: "nat \<Rightarrow> string"

subsection \<open>Decoding a frame\<close>

text \<open>\<open>split_comma s\<close> is Python's \<open>s.split(',')\<close>.\<close>

fun split_comma :: "string \<Rightarrow> string list" where
  "split_comma [] = [[]]"
| "split_comma (c # cs) =
     (if c = CHR '','' then [] # split_comma cs
      else (case split_comma cs of
              [] \<Rightarrow> [[c]]
            | p # ps \<Rightarrow> (c # p) # ps))"

text \<open>
  The text handed to \<open>base64.b64decode\<close>: \<open>base64_string.split(',')[1]\<close> when the
  payload has a comma, the payload itself otherwise. An index out of range raises.
\<close>

definition b64_text :: "string \<Rightarrow> string option" where
  "b64_text base64_string =
     (if CHR '','' \<in> set base64_string then
        (case split_comma base64_string of
           _ # part # _ \<Rightarrow> Some part
         | _ \<Rightarrow> None)
      else Some base64_string)"

text \<open>
  \<open>decode_frame\<close> catches every exception and returns \<open>None\<close> then. On a value that is
  not a string the test \<open>',' in base64_string\<close> raises.
\<close>

definition decode_frame :: "'img capabilities \<Rightarrow> pyval \<Rightarrow> 'img option" where
  "decode_frame caps v =
     (case v of
        PStr base64_string \<Rightarrow>
          (case b64_text base64_string of
             None \<Rightarrow> None
           | Some part \<Rightarrow>
               (case b64decode caps part of
                  None \<Rightarrow> None
                | Some img_bytes \<Rightarrow> imdecode caps img_bytes))
      | _ \<Rightarrow> None)"

subsection \<open>Detection\<close>

datatype error = DetectorError | UnicodeDecodeError

record qr_code =
  qr_data :: string
  qr_type :: string

text \<open>
  \<open>scan_qr_codes\<close> has no handler of its own: an exception of \<open>pyzbar.decode\<close> or of
  the UTF-8 decoding of a payload leaves the function. The rectangle and polygon of a
  code are used by the preview only and are left out.
\<close>

fun collect_codes :: "raw_code list \<Rightarrow> error + qr_code list" where
  "collect_codes [] = Inr []"
| "collect_codes (code # codes) =
     (case code_text code of
        None \<Rightarrow> Inl UnicodeDecodeError
      | Some text \<Rightarrow>
          (case collect_codes codes of
             Inl e \<Rightarrow> Inl e
           | Inr qr_codes \<Rightarrow> Inr (\<lparr>qr_data = text, qr_type = code_type code\<rparr> # qr_codes)))"

definition scan_qr_codes :: "'img capabilities \<Rightarrow> 'img \<Rightarrow> error + qr_code list" where
  "scan_qr_codes caps frame =
     (case pyzbar_decode caps frame of
        None \<Rightarrow> Inl DetectorError
      | Some detected_codes \<Rightarrow> collect_codes detected_codes)"

subsection \<open>Classifying a payload\<close>

text \<open>
  \<open>urlparse\<close> belongs to Python's standard library. The model follows
  \<open>urllib.parse.urlsplit\<close> of CPython 3.12 as far as the scheme and the network location
  go, which is all \<open>is_valid_url\<close> reads: leading characters up to the space are
  stripped, tab, carriage return and line feed are removed, a scheme is what stands
  before the first colon when it starts with an ASCII letter and consists of scheme
  characters, and the network location is what follows a leading \<open>//\<close> up to the first
  of \<open>/\<close>, \<open>?\<close> and \<open>#\<close>. Unbalanced brackets in the network location raise
  \<open>ValueError\<close>; so do a bracketed host and a non-ASCII network location that the
  library's further checks refuse, which are capabilities. The rest of the URL is not
  split further.
\<close>

record parse_result =
  scheme :: string
  netloc :: string
  url_rest :: string

definition c0_control_or_space :: "char \<Rightarrow> bool" where
  "c0_control_or_space c = ((of_char c :: nat) \<le> 32)"

definition unsafe_url_byte :: "char \<Rightarrow> bool" where
  "unsafe_url_byte c = ((of_char c :: nat) \<in> {9, 10, 13})"

definition ascii_upper :: "char \<Rightarrow> bool" where
  "ascii_upper c = (65 \<le> (of_char c :: nat) \<and> (of_char c :: nat) \<le> 90)"

definition ascii_lower :: "char \<Rightarrow> bool" where
  "ascii_lower c = (97 \<le> (of_char c :: nat) \<and> (of_char c :: nat) \<le> 122)"

definition ascii_digit :: "char \<Rightarrow> bool" where
  "ascii_digit c = (48 \<le> (of_char c :: nat) \<and> (of_char c :: nat) \<le> 57)"

definition ascii_alpha :: "char \<Rightarrow> bool" where
  "ascii_alpha c = (ascii_upper c \<or> ascii_lower c)"

definition scheme_char :: "char \<Rightarrow> bool" where
  "scheme_char c = (ascii_alpha c \<or> ascii_digit c \<or> c \<in> {CHR ''+'', CHR ''-'', CHR ''.''})"

definition to_lower :: "char \<Rightarrow> char" where
  "to_lower c = (if ascii_upper c then char_of ((of_char c :: nat) + 32) else c)"

definition is_ascii :: "string \<Rightarrow> bool" where
  "is_ascii s = list_all (\<lambda>c. (of_char c :: nat) < 128) s"

text \<open>The scheme and what follows its colon; no scheme leaves the text as it is.\<close>

definition split_scheme :: "string \<Rightarrow> string \<times> string" where
  "split_scheme url =
     (if CHR '':'' \<in> set url then
        (let head = takeWhile (\<lambda>c. c \<noteq> CHR '':'') url in
         if head \<noteq> [] \<and> ascii_alpha (hd head) \<and> list_all scheme_char head
         then (map to_lower head, drop (Suc (length head)) url)
         else ([], url))
      else ([], url))"

definition netloc_delim :: "char \<Rightarrow> bool" where
  "netloc_delim c = (c \<in> {CHR ''/'', CHR ''?'', CHR ''#''})"

definition splitnetloc :: "string \<Rightarrow> string \<times> string" where
  "splitnetloc url =
     (takeWhile (\<lambda>c. \<not> netloc_delim c) (drop 2 url),
      dropWhile (\<lambda>c. \<not> netloc_delim c) (drop 2 url))"

definition bracketed_host :: "string \<Rightarrow> string" where
  "bracketed_host loc =
     takeWhile (\<lambda>c. c \<noteq> CHR '']'') (drop 1 (dropWhile (\<lambda>c. c \<noteq> CHR ''['') loc))"

definition netloc_accepted :: "'img capabilities \<Rightarrow> string \<Rightarrow> bool" where
  "netloc_accepted caps loc =
     (if (CHR ''['' \<in> set loc) \<noteq> (CHR '']'' \<in> set loc) then False
      else if CHR ''['' \<in> set loc \<and> \<not> bracketed_host_ok caps (bracketed_host loc) then False
      else if loc \<noteq> [] \<and> \<not> is_ascii loc then nfkc_netloc_ok caps loc
      else True)"

definition urlparse :: "'img capabilities \<Rightarrow> string \<Rightarrow> parse_result option" where
  "urlparse caps url0 =
     (let url = filter (\<lambda>c. \<not> unsafe_url_byte c) (dropWhile c0_control_or_space url0);
          (sch, url1) = split_scheme url;
          (loc, url2) = (if take 2 url1 = ''//'' then splitnetloc url1 else ([], url1))
      in if netloc_accepted caps loc
         then Some \<lparr>scheme = sch, netloc = loc, url_rest = url2\<rparr>
         else None)"

text \<open>\<open>is_valid_url\<close>: \<open>all([result.scheme, result.netloc])\<close>, and \<open>False\<close> on any exception.\<close>

definition is_valid_url :: "'img capabilities \<Rightarrow> string \<Rightarrow> bool" where
  "is_valid_url caps url =
     (case urlparse caps url of
        None \<Rightarrow> False
      | Some result \<Rightarrow> scheme result \<noteq> [] \<and> netloc result \<noteq> [])"

subsection \<open>Reactions\<close>

text \<open>
  The three switches of the source are fields of a record, so that a run with another
  setting can be stated; \<open>source_settings\<close> are the values the file assigns.
\<close>

record settings =
  SHOW_PREVIEW :: bool
  AUTO_OPEN_URLS :: bool
  SEND_TO_WEB :: bool

definition source_settings :: settings where
  "source_settings = \<lparr>SHOW_PREVIEW = True, AUTO_OPEN_URLS = True, SEND_TO_WEB = True\<rparr>"

text \<open>\<open>open_url\<close> returns whether \<open>webbrowser.open\<close> came back without raising.\<close>

definition open_url :: "'img capabilities \<Rightarrow> string \<Rightarrow> bool" where
  "open_url caps url = (case webbrowser_open caps url of None \<Rightarrow> False | Some _ \<Rightarrow> True)"

text \<open>
  \<open>send_to_website\<close> builds the payload, posts it once and returns whether the answer
  had status 200; the result here is the posted payload with that flag. \<open>timestamp\<close>
  is the formatted local time the call reads.
\<close>

definition send_to_website ::
  "settings \<Rightarrow> 'img capabilities \<Rightarrow> string \<Rightarrow> string \<Rightarrow> string \<Rightarrow> bool \<Rightarrow> qr_event \<times> bool" where
  "send_to_website cfg caps timestamp data type is_url =
     (let payload = \<lparr>ev_data = data, ev_type = type, ev_is_url = is_url,
                     ev_timestamp = timestamp,
                     ev_status = (if is_url \<and> AUTO_OPEN_URLS cfg then ''opened'' else ''detected'')\<rparr>
      in (payload, (case requests_post caps payload of
                      None \<Rightarrow> False
                    | Some status_code \<Rightarrow> status_code = 200)))"

subsection \<open>The poll loop\<close>

text \<open>
  The state of \<open>main\<close>: its local variables, the global table, the number of clock
  readings made so far, and a log of the calls to the outside world in the order they
  are made. The log is not in the source; it is what the theorems count. The two
  flags in the log are the values \<open>open_url\<close> and \<open>send_to_website\<close> return, which
  \<open>main\<close> discards.
\<close>

datatype event = Fetch | Decode pyval | Scan | OpenUrl string bool | Publish qr_event bool
  | Sweep | Sleep

record loop_state =
  recent_qrs :: recent
  last_timestamp :: pyval
  frame_count :: nat
  qr_count :: nat
  clock_reads :: nat
  trace :: "event list"

definition initial_state :: loop_state where
  "initial_state = \<lparr>recent_qrs = [], last_timestamp = PNone, frame_count = 0, qr_count = 0,
                     clock_reads = 0, trace = []\<rparr>"

definition emit :: "event \<Rightarrow> loop_state \<Rightarrow> loop_state" where
  "emit e st = st\<lparr>trace := trace st @ [e]\<rparr>"

text \<open>What \<open>main\<close> does with a code that \<open>should_process_qr\<close> accepted.\<close>

definition dispatch_qr :: "settings \<Rightarrow> 'img capabilities \<Rightarrow> qr_code \<Rightarrow> loop_state \<Rightarrow> loop_state" where
  "dispatch_qr cfg caps qr st =
     (let is_url = is_valid_url caps (qr_data qr);
          st1 = (if is_url \<and> AUTO_OPEN_URLS cfg
                 then emit (OpenUrl (qr_data qr) (open_url caps (qr_data qr))) st
                 else st)
      in if SEND_TO_WEB cfg then
           (let (payload, sent) =
                  send_to_website cfg caps (datetime_now caps (clock_reads st1))
                    (qr_data qr) (qr_type qr) is_url
            in emit (Publish payload sent) (st1\<lparr>clock_reads := Suc (clock_reads st1)\<rparr>))
         else st1)"

text \<open>The body of \<open>for qr in qr_codes\<close>.\<close>

definition process_qr :: "settings \<Rightarrow> 'img capabilities \<Rightarrow> qr_code \<Rightarrow> loop_state \<Rightarrow> loop_state" where
  "process_qr cfg caps qr st =
     (let (accepted, table) =
            should_process_qr (time_time caps (clock_reads st)) (qr_data qr) (recent_qrs st);
          st1 = st\<lparr>clock_reads := Suc (clock_reads st), recent_qrs := table\<rparr>
      in if \<not> accepted then st1
         else dispatch_qr cfg caps qr (st1\<lparr>qr_count := Suc (qr_count st1)\<rparr>))"

text \<open>The end of the loop body: the sweep on the frame counter, then the sleep.\<close>

definition sweep :: "'img capabilities \<Rightarrow> loop_state \<Rightarrow> loop_state" where
  "sweep caps st =
     emit Sweep (st\<lparr>recent_qrs := clean_old_qrs (time_time caps (clock_reads st)) (recent_qrs st),
                     clock_reads := Suc (clock_reads st)\<rparr>)"

datatype status = Running | Quit | Crashed error

definition end_of_cycle :: "'img capabilities \<Rightarrow> loop_state \<Rightarrow> status \<times> loop_state" where
  "end_of_cycle caps st =
     (Running, emit Sleep (if frame_count st mod 100 = 0 then sweep caps st else st))"

text \<open>
  One pass through the body of \<open>while True\<close>. What the outside gives in that pass is the
  answer of the store and the key \<open>cv2.waitKey\<close> returns. The pass ends \<open>Running\<close> when
  it reaches the sleep, \<open>Quit\<close> at the \<open>break\<close>, and \<open>Crashed\<close> when an exception
  leaves \<open>scan_qr_codes\<close>: the \<open>try\<close> of \<open>main\<close> handles \<open>KeyboardInterrupt\<close> only.
  The interrupt itself and failures of the preview window are not part of the model.
\<close>

record cycle_input =
  response :: response
  waitkey :: int

definition poll_cycle ::
  "settings \<Rightarrow> 'img capabilities \<Rightarrow> cycle_input \<Rightarrow> loop_state \<Rightarrow> status \<times> loop_state" where
  "poll_cycle cfg caps inp st0 =
     (let st = emit Fetch st0;
          (frame_base64, timestamp) = fetch_camera_frame (response inp)
      in if truthy frame_base64 \<and> \<not> py_eq timestamp (last_timestamp st) then
           (let st1 = emit (Decode frame_base64)
                        (st\<lparr>frame_count := Suc (frame_count st), last_timestamp := timestamp\<rparr>)
            in case decode_frame caps frame_base64 of
                 None \<Rightarrow> end_of_cycle caps st1
               | Some frame \<Rightarrow>
                   (case scan_qr_codes caps frame of
                      Inl e \<Rightarrow> (Crashed e, emit Scan st1)
                    | Inr qr_codes \<Rightarrow>
                        (let st2 = fold (process_qr cfg caps) qr_codes (emit Scan st1)
                         in if SHOW_PREVIEW cfg \<and> waitkey inp AND 255 = 113 then (Quit, st2)
                            else end_of_cycle caps st2)))
         else end_of_cycle caps st)"

text \<open>The loop on the inputs of finitely many passes; it stops at the first pass that
  does not end \<open>Running\<close>.\<close>

fun run ::
  "settings \<Rightarrow> 'img capabilities \<Rightarrow> cycle_input list \<Rightarrow> loop_state \<Rightarrow> status \<times> loop_state" where
  "run cfg caps [] st = (Running, st)"
| "run cfg caps (inp # inps) st =
     (case poll_cycle cfg caps inp st of
        (Running, st') \<Rightarrow> run cfg caps inps st'
      | stopped \<Rightarrow> stopped)"

text \<open>The test \<open>frame_base64 and timestamp != last_timestamp\<close> on what a pass fetches.\<close>

definition new_frame :: "cycle_input \<Rightarrow> loop_state \<Rightarrow> bool" where
  "new_frame inp st =
     (truthy (fst (fetch_camera_frame (response inp)))
      \<and> \<not> py_eq (snd (fetch_camera_frame (response inp))) (last_timestamp st))"

text \<open>Counting in the log.\<close>

definition fetches :: "event list \<Rightarrow> nat" where
  "fetches evs = length (filter (\<lambda>e. e = Fetch) evs)"

definition decodes :: "event list \<Rightarrow> nat" where
  "decodes evs = length (filter (\<lambda>e. case e of Decode _ \<Rightarrow> True | _ \<Rightarrow> False) evs)"

definition sweeps :: "event list \<Rightarrow> nat" where
  "sweeps evs = length (filter (\<lambda>e. e = Sweep) evs)"

definition opened :: "event list \<Rightarrow> string list" where
  "opened evs = concat (map (\<lambda>e. case e of OpenUrl url _ \<Rightarrow> [url] | _ \<Rightarrow> []) evs)"

definition published :: "event list \<Rightarrow> qr_event list" where
  "published evs = concat (map (\<lambda>e. case e of Publish payload _ \<Rightarrow> [payload] | _ \<Rightarrow> []) evs)"

subsection \<open>Scripted capabilities and inputs\<close>

text \<open>
  Stand-ins for the libraries, for running the loop on concrete inputs: the decoded
  image is the text of the payload itself, the detector reads one code with that text
  from it, finds nothing in the image \<open>blank\<close> and raises on the image \<open>corrupt\<close>;
  the browser and the event sink always succeed, and the clock advances by one second
  at each reading.
\<close>

definition scripted_caps :: "string capabilities" where
  "scripted_caps =
     \<lparr>b64decode = (\<lambda>s. Some s),
      imdecode = (\<lambda>b. if b = [] then None else Some b),
      pyzbar_decode = (\<lambda>img. if img = ''corrupt'' then None
                              else if img = ''blank'' then Some []
                              else Some [\<lparr>code_text = Some img, code_type = ''QRCODE''\<rparr>]),
      bracketed_host_ok = (\<lambda>_. True),
      nfkc_netloc_ok = (\<lambda>_. True),
      webbrowser_open = (\<lambda>_. Some True),
      requests_post = (\<lambda>_. Some 200),
      time_time = (\<lambda>n. real n),
      datetime_now = (\<lambda>_. ''2024-01-01 00:00:00'')\<rparr>"

definition store_frame :: "string \<Rightarrow> string \<Rightarrow> cycle_input" where
  "store_frame frame token =
     \<lparr>response = Response 200 (JsonObject [''frame'' \<mapsto> PStr frame, ''timestamp'' \<mapsto> PStr token]),
      waitkey = - 1\<rparr>"


definition store_empty :: cycle_input where
  "store_empty = \<lparr>response = Response 200 JsonOther, waitkey = - 1\<rparr>"

section \<open>Properties of the cooldown table\<close>

lemma map_of_fold_delete:
  "map_of (fold AList.delete ks al) k = (if k \<in> set ks then None else map_of al k)"
  by (induction ks arbitrary: al) (simp_all add: AList.delete_conv)

lemma distinct_fold_delete:
  "distinct (map fst al) \<Longrightarrow> distinct (map fst (fold AList.delete ks al))"
  by (induction ks arbitrary: al) (simp_all add: AList.distinct_delete)

lemma expired_qrs_iff:
  assumes "distinct (map fst al)"
  shows "k \<in> set (expired_qrs now al) \<longleftrightarrow>
         (\<exists>ts. map_of al k = Some ts \<and> now - ts > SCAN_COOLDOWN * 2)"
proof
  assume "k \<in> set (expired_qrs now al)"
  then obtain ts where "(k, ts) \<in> set al" "now - ts > SCAN_COOLDOWN * 2"
    by (auto simp: expired_qrs_def)
  with assms show "\<exists>ts. map_of al k = Some ts \<and> now - ts > SCAN_COOLDOWN * 2"
    by auto
next
  assume "\<exists>ts. map_of al k = Some ts \<and> now - ts > SCAN_COOLDOWN * 2"
  then obtain ts where "map_of al k = Some ts" "now - ts > SCAN_COOLDOWN * 2"
    by blast
  then have "(k, ts) \<in> set al" by (auto dest: map_of_SomeD)
  with \<open>now - ts > SCAN_COOLDOWN * 2\<close> show "k \<in> set (expired_qrs now al)"
    by (force simp: expired_qrs_def)
qed

lemma distinct_should_process_qr:
  "distinct (map fst al) \<Longrightarrow> distinct (map fst (snd (should_process_qr now p al)))"
  by (simp add: should_process_qr_def AList.distinct_update split: option.splits)

lemma distinct_clean_old_qrs:
  "distinct (map fst al) \<Longrightarrow> distinct (map fst (clean_old_qrs now al))"
  by (simp add: clean_old_qrs_def distinct_fold_delete)

lemma map_of_clean_old_qrs:
  assumes "distinct (map fst al)"
  shows "map_of (clean_old_qrs now al) k =
         (case map_of al k of
            None \<Rightarrow> None
          | Some ts \<Rightarrow> if now - ts > SCAN_COOLDOWN * 2 then None else Some ts)"
  using expired_qrs_iff [OF assms, of k now]
  by (auto simp: clean_old_qrs_def map_of_fold_delete split: option.splits)

text \<open>
  Claim C1. \<open>should_process_qr\<close> accepts a payload exactly when the table has no entry
  for it or the entry is at least \<open>SCAN_COOLDOWN\<close> seconds old. An accepting call
  stores the current time for the payload and changes no other entry; a rejecting call
  leaves the table as it was. Hence a payload accepted at \<open>t1\<close> is rejected by the next
  call at any \<open>t2\<close> with \<open>t1 < t2\<close> and \<open>t2 - t1 < SCAN_COOLDOWN\<close>.
\<close>

theorem should_process_qr_cooldown:
  "(fst (should_process_qr now p al) \<longleftrightarrow>
      (map_of al p = None \<or> (\<exists>last. map_of al p = Some last \<and> now - last \<ge> SCAN_COOLDOWN)))
   \<and> (fst (should_process_qr now p al) \<longrightarrow>
        map_of (snd (should_process_qr now p al)) = (map_of al)(p \<mapsto> now))
   \<and> (\<not> fst (should_process_qr now p al) \<longrightarrow> snd (should_process_qr now p al) = al)
   \<and> (t1 < t2 \<and> t2 - t1 < SCAN_COOLDOWN \<and> fst (should_process_qr t1 p al) \<longrightarrow>
        \<not> fst (should_process_qr t2 p (snd (should_process_qr t1 p al))))"
proof -
  have accept: "fst (should_process_qr now p al) \<longleftrightarrow>
      (map_of al p = None \<or> (\<exists>last. map_of al p = Some last \<and> now - last \<ge> SCAN_COOLDOWN))"
    by (auto simp: should_process_qr_def split: option.splits)
  have store: "fst (should_process_qr t p al) \<longrightarrow>
      map_of (snd (should_process_qr t p al)) = (map_of al)(p \<mapsto> t)" for t
    by (auto simp: should_process_qr_def AList.update_conv' split: option.splits)
  have keep: "\<not> fst (should_process_qr now p al) \<longrightarrow> snd (should_process_qr now p al) = al"
    by (auto simp: should_process_qr_def split: option.splits)
  have again: "\<not> fst (should_process_qr t2 p (snd (should_process_qr t1 p al)))"
    if "t2 - t1 < SCAN_COOLDOWN" "fst (should_process_qr t1 p al)"
  proof -
    from that(2) store have "map_of (snd (should_process_qr t1 p al)) p = Some t1"
      by simp
    with that(1) show ?thesis
      by (simp add: should_process_qr_def [of t2])
  qed
  from accept store keep again show ?thesis by blast
qed

theorem should_process_qr_cooldown_witness:
  "fst (should_process_qr 100 ''abc'' [])
   \<and> snd (should_process_qr 100 ''abc'' []) = [(''abc'', 100)]
   \<and> \<not> fst (should_process_qr 103 ''abc'' [(''abc'', 100)])
   \<and> snd (should_process_qr 103 ''abc'' [(''abc'', 100)]) = [(''abc'', 100)]
   \<and> fst (should_process_qr 105 ''abc'' [(''abc'', 100)])"
proof -
  have a: "fst (should_process_qr 100 ''abc'' [])"
    by (simp add: should_process_qr_def)
  have s: "snd (should_process_qr 100 ''abc'' []) = [(''abc'', 100)]"
    by (simp add: should_process_qr_def)
  have "(100::real) < 103 \<and> (103::real) - 100 < SCAN_COOLDOWN"
    by (simp add: SCAN_COOLDOWN_def)
  with a should_process_qr_cooldown [of 100 "''abc''" "[]" 100 103]
  have r: "\<not> fst (should_process_qr 103 ''abc'' (snd (should_process_qr 100 ''abc'' [])))"
    by blast
  have k: "snd (should_process_qr 103 ''abc'' [(''abc'', 100)]) = [(''abc'', 100)]"
    using r should_process_qr_cooldown [of 103 "''abc''" "[(''abc'', 100)]" 0 0]
    unfolding s by blast
  have l: "fst (should_process_qr 105 ''abc'' [(''abc'', 100)])"
    by (simp add: should_process_qr_def SCAN_COOLDOWN_def)
  from a s r k l show ?thesis unfolding s by blast
qed

text \<open>
  Claim C4. On a table with pairwise different keys, the sweep \<open>clean_old_qrs\<close> at
  time \<open>now\<close> removes the entries whose age is above twice the cooldown and keeps every
  other entry with its timestamp, and the answer of \<open>should_process_qr\<close> at \<open>now\<close> is
  the same on the swept table as on the table before the sweep, for every payload.
\<close>

theorem clean_old_qrs_exact:
  assumes "distinct (map fst al)"
  shows "(\<forall>k ts. map_of al k = Some ts \<and> now - ts > SCAN_COOLDOWN * 2 \<longrightarrow>
            map_of (clean_old_qrs now al) k = None)
       \<and> (\<forall>k ts. map_of al k = Some ts \<and> now - ts \<le> SCAN_COOLDOWN * 2 \<longrightarrow>
            map_of (clean_old_qrs now al) k = Some ts)
       \<and> (\<forall>k. map_of al k = None \<longrightarrow> map_of (clean_old_qrs now al) k = None)
       \<and> (\<forall>p. fst (should_process_qr now p (clean_old_qrs now al)) =
               fst (should_process_qr now p al))"
proof -
  note m = map_of_clean_old_qrs [OF assms, of now]
  have "fst (should_process_qr now p (clean_old_qrs now al)) =
        fst (should_process_qr now p al)" for p
    by (cases "map_of al p") (auto simp: should_process_qr_def m SCAN_COOLDOWN_def)
  then show ?thesis by (simp add: m)
qed

theorem clean_old_qrs_exact_witness:
  "distinct (map fst [(''old'', 0), (''edge'', 90), (''new'', 98 :: real)])
   \<and> clean_old_qrs 100 [(''old'', 0), (''edge'', 90), (''new'', 98)]
       = [(''edge'', 90), (''new'', 98)]
   \<and> map_of (clean_old_qrs 100 [(''old'', 0), (''edge'', 90), (''new'', 98)]) ''old'' = None
   \<and> map_of (clean_old_qrs 100 [(''old'', 0), (''edge'', 90), (''new'', 98)]) ''edge'' = Some 90"
proof -
  have d: "distinct (map fst [(''old'', 0), (''edge'', 90), (''new'', 98 :: real)])"
    by simp
  have e: "clean_old_qrs 100 [(''old'', 0), (''edge'', 90), (''new'', 98)]
             = [(''edge'', 90), (''new'', 98)]"
    by (simp add: clean_old_qrs_def expired_qrs_def SCAN_COOLDOWN_def AList.delete_eq)
  have o: "map_of [(''old'', 0), (''edge'', 90), (''new'', 98 :: real)] ''old'' = Some 0
           \<and> (100::real) - 0 > SCAN_COOLDOWN * 2"
    by (simp add: SCAN_COOLDOWN_def)
  have g: "map_of [(''old'', 0), (''edge'', 90), (''new'', 98 :: real)] ''edge'' = Some 90
           \<and> (100::real) - 90 \<le> SCAN_COOLDOWN * 2"
    by (simp add: SCAN_COOLDOWN_def)
  from clean_old_qrs_exact [OF d, of 100] o g d e show ?thesis by blast
qed

section \<open>Properties of the poll loop\<close>

lemma py_eq_refl [simp]: "py_eq v v"
  by (cases v) simp_all


lemma emit_fields [simp]:
  "trace (emit e st) = trace st @ [e]"
  "recent_qrs (emit e st) = recent_qrs st"
  "last_timestamp (emit e st) = last_timestamp st"
  "frame_count (emit e st) = frame_count st"
  "qr_count (emit e st) = qr_count st"
  "clock_reads (emit e st) = clock_reads st"
  by (simp_all add: emit_def)

lemma count_append [simp]:
  "fetches (xs @ ys) = fetches xs + fetches ys"
  "decodes (xs @ ys) = decodes xs + decodes ys"
  "sweeps (xs @ ys) = sweeps xs + sweeps ys"
  "opened (xs @ ys) = opened xs @ opened ys"
  "published (xs @ ys) = published xs @ published ys"
  by (simp_all add: fetches_def decodes_def sweeps_def opened_def published_def)

lemma count_Nil [simp]:
  "fetches [] = 0" "decodes [] = 0" "sweeps [] = 0" "opened [] = []" "published [] = []"
  by (simp_all add: fetches_def decodes_def sweeps_def opened_def published_def)

lemma count_Cons [simp]:
  "fetches (e # es) = (if e = Fetch then 1 else 0) + fetches es"
  "decodes (e # es) = (case e of Decode _ \<Rightarrow> 1 | _ \<Rightarrow> 0) + decodes es"
  "sweeps (e # es) = (if e = Sweep then 1 else 0) + sweeps es"
  "opened (e # es) = (case e of OpenUrl url _ \<Rightarrow> [url] | _ \<Rightarrow> []) @ opened es"
  "published (e # es) = (case e of Publish payload _ \<Rightarrow> [payload] | _ \<Rightarrow> []) @ published es"
  by (simp_all add: fetches_def decodes_def sweeps_def opened_def published_def split: event.splits)

lemma dispatch_qr_keeps:
  "fetches (trace (dispatch_qr cfg caps qr st)) = fetches (trace st)"
  "decodes (trace (dispatch_qr cfg caps qr st)) = decodes (trace st)"
  "sweeps (trace (dispatch_qr cfg caps qr st)) = sweeps (trace st)"
  "last_timestamp (dispatch_qr cfg caps qr st) = last_timestamp st"
  "frame_count (dispatch_qr cfg caps qr st) = frame_count st"
  by (simp_all add: dispatch_qr_def Let_def split: prod.splits)

lemma process_qr_keeps:
  "fetches (trace (process_qr cfg caps qr st)) = fetches (trace st)"
  "decodes (trace (process_qr cfg caps qr st)) = decodes (trace st)"
  "sweeps (trace (process_qr cfg caps qr st)) = sweeps (trace st)"
  "last_timestamp (process_qr cfg caps qr st) = last_timestamp st"
  "frame_count (process_qr cfg caps qr st) = frame_count st"
  by (simp_all add: process_qr_def Let_def dispatch_qr_keeps split: prod.splits)

lemma fold_process_qr_keeps:
  "fetches (trace (fold (process_qr cfg caps) qrs st)) = fetches (trace st)"
  "decodes (trace (fold (process_qr cfg caps) qrs st)) = decodes (trace st)"
  "sweeps (trace (fold (process_qr cfg caps) qrs st)) = sweeps (trace st)"
  "last_timestamp (fold (process_qr cfg caps) qrs st) = last_timestamp st"
  "frame_count (fold (process_qr cfg caps) qrs st) = frame_count st"
  by (induction qrs arbitrary: st; simp add: process_qr_keeps)+

lemma end_of_cycle_effect:
  "fst (end_of_cycle caps st) = Running"
  "fetches (trace (snd (end_of_cycle caps st))) = fetches (trace st)"
  "decodes (trace (snd (end_of_cycle caps st))) = decodes (trace st)"
  "sweeps (trace (snd (end_of_cycle caps st))) =
     sweeps (trace st) + (if frame_count st mod 100 = 0 then 1 else 0)"
  "last_timestamp (snd (end_of_cycle caps st)) = last_timestamp st"
  "frame_count (snd (end_of_cycle caps st)) = frame_count st"
  by (simp_all add: end_of_cycle_def sweep_def)

lemma poll_cycle_effect:
  "fetches (trace (snd (poll_cycle cfg caps inp st))) = fetches (trace st) + 1"
  "decodes (trace (snd (poll_cycle cfg caps inp st))) =
     decodes (trace st) + (if new_frame inp st then 1 else 0)"
  "last_timestamp (snd (poll_cycle cfg caps inp st)) =
     (if new_frame inp st then snd (fetch_camera_frame (response inp)) else last_timestamp st)"
  "frame_count (snd (poll_cycle cfg caps inp st)) =
     frame_count st + (if new_frame inp st then 1 else 0)"
  "sweeps (trace (snd (poll_cycle cfg caps inp st))) =
     sweeps (trace st) +
       (if fst (poll_cycle cfg caps inp st) = Running
           \<and> frame_count (snd (poll_cycle cfg caps inp st)) mod 100 = 0 then 1 else 0)"
  "\<not> new_frame inp st \<Longrightarrow> fst (poll_cycle cfg caps inp st) = Running"
  by (simp_all add: poll_cycle_def new_frame_def Let_def split_beta end_of_cycle_effect
        fold_process_qr_keeps split: option.splits sum.splits)


section \<open>Properties of the classifier and of the frame decoder\<close>

lemmas url_defs = is_valid_url_def urlparse_def split_scheme_def splitnetloc_def
  netloc_accepted_def c0_control_or_space_def unsafe_url_byte_def ascii_alpha_def
  ascii_upper_def ascii_lower_def ascii_digit_def scheme_char_def to_lower_def is_ascii_def
  netloc_delim_def

lemma split_scheme_no_colon: "CHR '':'' \<notin> set u \<Longrightarrow> split_scheme u = ([], u)"
  by (simp add: split_scheme_def)

lemma no_colon_no_scheme:
  assumes "CHR '':'' \<notin> set url"
  shows "\<not> is_valid_url caps url"
proof -
  define u where "u = filter (\<lambda>c. \<not> unsafe_url_byte c) (dropWhile c0_control_or_space url)"
  from assms have "CHR '':'' \<notin> set u"
    unfolding u_def by (auto dest: set_dropWhileD)
  then have "split_scheme u = ([], u)"
    by (rule split_scheme_no_colon)
  then show ?thesis
    by (simp add: is_valid_url_def urlparse_def u_def [symmetric] Let_def split_beta)
qed

text \<open>
  Claim C6. \<open>is_valid_url\<close> is true exactly when \<open>urlparse\<close> returns a result whose
  scheme and network location are both non-empty, and false when \<open>urlparse\<close> raises.
  \<open>https://example.com/x\<close> is classified as a URL; \<open>hello world\<close>,
  \<open>mailto:a@b.com\<close>, the scheme-only strings \<open>https:\<close> and \<open>https://\<close> and the
  host-only strings \<open>example.com\<close> and \<open>//example.com\<close> are not, and no string
  without a colon is.
\<close>

theorem is_valid_url_classifier:
  "(is_valid_url caps url \<longleftrightarrow>
      (\<exists>result. urlparse caps url = Some result \<and> scheme result \<noteq> [] \<and> netloc result \<noteq> []))
   \<and> (urlparse caps url = None \<longrightarrow> \<not> is_valid_url caps url)
   \<and> (CHR '':'' \<notin> set url \<longrightarrow> \<not> is_valid_url caps url)
   \<and> is_valid_url caps ''https://example.com/x''
   \<and> \<not> is_valid_url caps ''hello world''
   \<and> \<not> is_valid_url caps ''mailto:a@b.com''
   \<and> \<not> is_valid_url caps ''https:''
   \<and> \<not> is_valid_url caps ''https://''
   \<and> \<not> is_valid_url caps ''example.com''
   \<and> \<not> is_valid_url caps ''//example.com''"
proof -
  have a: "is_valid_url caps url \<longleftrightarrow>
      (\<exists>result. urlparse caps url = Some result \<and> scheme result \<noteq> [] \<and> netloc result \<noteq> [])"
    by (simp add: is_valid_url_def split: option.splits)
  have b: "urlparse caps url = None \<longrightarrow> \<not> is_valid_url caps url"
    by (simp add: is_valid_url_def)
  have c: "CHR '':'' \<notin> set url \<longrightarrow> \<not> is_valid_url caps url"
    using no_colon_no_scheme by blast
  have e1: "is_valid_url caps ''https://example.com/x''" by (simp add: url_defs)
  have e2: "\<not> is_valid_url caps ''hello world''" by (simp add: url_defs)
  have e3: "\<not> is_valid_url caps ''mailto:a@b.com''" by (simp add: url_defs)
  have e4: "\<not> is_valid_url caps ''https:''" by (simp add: url_defs)
  have e5: "\<not> is_valid_url caps ''https://''" by (simp add: url_defs)
  have e6: "\<not> is_valid_url caps ''example.com''" by (simp add: url_defs)
  have e7: "\<not> is_valid_url caps ''//example.com''" by (simp add: url_defs)
  from a b c e1 e2 e3 e4 e5 e6 e7 show ?thesis by blast
qed

theorem is_valid_url_classifier_witness:
  "urlparse scripted_caps ''http://[::1/x'' = None
   \<and> \<not> is_valid_url scripted_caps ''http://[::1/x''
   \<and> CHR '':'' \<notin> set ''example.com/index.html''
   \<and> \<not> is_valid_url scripted_caps ''example.com/index.html''
   \<and> urlparse scripted_caps ''HTTP://Example.com:80/a?b#c''
        = Some \<lparr>scheme = ''http'', netloc = ''Example.com:80'', url_rest = ''/a?b#c''\<rparr>
   \<and> is_valid_url scripted_caps ''HTTP://Example.com:80/a?b#c''"
proof -
  have n: "urlparse scripted_caps ''http://[::1/x'' = None"
    by (simp add: url_defs scripted_caps_def)
  have c: "CHR '':'' \<notin> set ''example.com/index.html''" by simp
  have p: "urlparse scripted_caps ''HTTP://Example.com:80/a?b#c''
        = Some \<lparr>scheme = ''http'', netloc = ''Example.com:80'', url_rest = ''/a?b#c''\<rparr>"
    by code_simp
  from n is_valid_url_classifier [of scripted_caps "''http://[::1/x''"]
  have 1: "\<not> is_valid_url scripted_caps ''http://[::1/x''" by blast
  from c is_valid_url_classifier [of scripted_caps "''example.com/index.html''"]
  have 2: "\<not> is_valid_url scripted_caps ''example.com/index.html''" by blast
  from p is_valid_url_classifier [of scripted_caps "''HTTP://Example.com:80/a?b#c''"]
  have 3: "is_valid_url scripted_caps ''HTTP://Example.com:80/a?b#c''" by simp
  from n c p 1 2 3 show ?thesis by blast
qed

lemma split_comma_not_Nil: "split_comma s \<noteq> []"
  by (induction s) (simp_all split: list.splits)

lemma split_comma_no_comma: "CHR '','' \<notin> set s \<Longrightarrow> split_comma s = [s]"
  by (induction s) auto

lemma split_comma_prefix:
  "CHR '','' \<notin> set prefix \<Longrightarrow>
     split_comma (prefix @ CHR '','' # rest) = prefix # split_comma rest"
  by (induction prefix) auto

lemma b64_text_one_comma:
  assumes "CHR '','' \<notin> set prefix" "CHR '','' \<notin> set rest"
  shows "b64_text (prefix @ CHR '','' # rest) = Some rest"
  using assms by (simp add: b64_text_def split_comma_prefix split_comma_no_comma)

text \<open>
  Claim C8, as stated, fails: of a payload with a second comma the decoder hands only
  the text between the first two commas to the base64 decoder, not the whole remainder.
\<close>

theorem decode_frame_whole_remainder_counterexample:
  "CHR '','' \<notin> set ''data:image/jpeg;base64''
   \<and> b64_text (''data:image/jpeg;base64'' @ CHR '','' # ''AAAA,BBBB'') = Some ''AAAA''
   \<and> decode_frame scripted_caps (PStr (''data:image/jpeg;base64'' @ CHR '','' # ''AAAA,BBBB''))
       \<noteq> (case b64decode scripted_caps ''AAAA,BBBB'' of
             None \<Rightarrow> None | Some img_bytes \<Rightarrow> imdecode scripted_caps img_bytes)"
  by (simp add: b64_text_def decode_frame_def scripted_caps_def)

text \<open>
  Claim C8, amended. Of a payload with exactly one comma, \<open>decode_frame\<close> drops the
  prefix up to and including the comma and base64-decodes the whole remainder; a
  payload without a comma is decoded whole.
\<close>

theorem decode_frame_strips_prefix:
  "(CHR '','' \<notin> set prefix \<and> CHR '','' \<notin> set rest \<longrightarrow>
      decode_frame caps (PStr (prefix @ CHR '','' # rest)) =
        (case b64decode caps rest of
           None \<Rightarrow> None | Some img_bytes \<Rightarrow> imdecode caps img_bytes))
   \<and> (CHR '','' \<notin> set s \<longrightarrow>
      decode_frame caps (PStr s) =
        (case b64decode caps s of
           None \<Rightarrow> None | Some img_bytes \<Rightarrow> imdecode caps img_bytes))"
  by (simp add: decode_frame_def b64_text_one_comma) (simp add: b64_text_def)

theorem decode_frame_strips_prefix_witness:
  "CHR '','' \<notin> set ''data:image/jpeg;base64'' \<and> CHR '','' \<notin> set ''AAAA''
   \<and> decode_frame scripted_caps (PStr ''data:image/jpeg;base64,AAAA'') = Some ''AAAA''
   \<and> CHR '','' \<notin> set ''BBBB''
   \<and> decode_frame scripted_caps (PStr ''BBBB'') = Some ''BBBB''"
proof -
  have h: "CHR '','' \<notin> set ''data:image/jpeg;base64'' \<and> CHR '','' \<notin> set ''AAAA''" by simp
  have k: "CHR '','' \<notin> set ''BBBB''" by simp
  from h decode_frame_strips_prefix
    [where prefix = "''data:image/jpeg;base64''" and rest = "''AAAA''" and caps = scripted_caps]
  have 1: "decode_frame scripted_caps (PStr ''data:image/jpeg;base64,AAAA'') = Some ''AAAA''"
    by (simp add: scripted_caps_def)
  from k decode_frame_strips_prefix [where s = "''BBBB''" and caps = scripted_caps]
  have 2: "decode_frame scripted_caps (PStr ''BBBB'') = Some ''BBBB''"
    by (simp add: scripted_caps_def)
  from h k 1 2 show ?thesis by blast
qed


section \<open>Properties of the frame fetch\<close>

lemma poll_cycle_no_frame:
  assumes "fetch_camera_frame (response inp) = (PNone, PNone)"
  shows "poll_cycle cfg caps inp st = end_of_cycle caps (emit Fetch st)"
  using assms by (simp add: poll_cycle_def)

lemma run_Cons_Running:
  "fst (poll_cycle cfg caps inp st) = Running \<Longrightarrow>
     run cfg caps (inp # inps) st = run cfg caps inps (snd (poll_cycle cfg caps inp st))"
  by (cases "poll_cycle cfg caps inp st") simp


text \<open>
  Claim C9. \<open>fetch_camera_frame\<close> has a result for every outcome of the request: when
  the request or the JSON parsing raises, when the status is not 200, and when the
  answer has no \<open>frame\<close>, the result is \<open>(None, None)\<close>. A pass of the loop that
  fetches \<open>(None, None)\<close> decodes nothing, leaves the counters and the last token as
  they were, and the loop goes on with the next pass.
\<close>

theorem fetch_camera_frame_soft_failure:
  "fetch_camera_frame RequestError = (PNone, PNone)
   \<and> fetch_camera_frame (Response code NotJson) = (PNone, PNone)
   \<and> fetch_camera_frame (Response code JsonOther) = (PNone, PNone)
   \<and> (data ''frame'' = None \<longrightarrow> fetch_camera_frame (Response code (JsonObject data)) = (PNone, PNone))
   \<and> (code \<noteq> 200 \<longrightarrow> fetch_camera_frame (Response code body) = (PNone, PNone))
   \<and> (fetch_camera_frame (response inp) = (PNone, PNone) \<longrightarrow>
        fst (poll_cycle cfg caps inp st) = Running
        \<and> decodes (trace (snd (poll_cycle cfg caps inp st))) = decodes (trace st)
        \<and> frame_count (snd (poll_cycle cfg caps inp st)) = frame_count st
        \<and> qr_count (snd (poll_cycle cfg caps inp st)) = qr_count st
        \<and> last_timestamp (snd (poll_cycle cfg caps inp st)) = last_timestamp st
        \<and> run cfg caps (inp # inps) st = run cfg caps inps (snd (poll_cycle cfg caps inp st)))"
proof -
  have 1: "fetch_camera_frame RequestError = (PNone, PNone)"
    by (simp add: fetch_camera_frame_def)
  have 2: "fetch_camera_frame (Response code NotJson) = (PNone, PNone)"
    by (simp add: fetch_camera_frame_def)
  have 3: "fetch_camera_frame (Response code JsonOther) = (PNone, PNone)"
    by (simp add: fetch_camera_frame_def)
  have 4: "data ''frame'' = None \<longrightarrow>
             fetch_camera_frame (Response code (JsonObject data)) = (PNone, PNone)"
    by (simp add: fetch_camera_frame_def)
  have 5: "code \<noteq> 200 \<longrightarrow> fetch_camera_frame (Response code body) = (PNone, PNone)"
    by (simp add: fetch_camera_frame_def)
  have 6: "fst (poll_cycle cfg caps inp st) = Running
        \<and> decodes (trace (snd (poll_cycle cfg caps inp st))) = decodes (trace st)
        \<and> frame_count (snd (poll_cycle cfg caps inp st)) = frame_count st
        \<and> qr_count (snd (poll_cycle cfg caps inp st)) = qr_count st
        \<and> last_timestamp (snd (poll_cycle cfg caps inp st)) = last_timestamp st
        \<and> run cfg caps (inp # inps) st = run cfg caps inps (snd (poll_cycle cfg caps inp st))"
    if h: "fetch_camera_frame (response inp) = (PNone, PNone)"
  proof -
    have p: "poll_cycle cfg caps inp st = end_of_cycle caps (emit Fetch st)"
      using h by (rule poll_cycle_no_frame)
    have q: "qr_count (snd (end_of_cycle caps (emit Fetch st))) = qr_count st"
      by (simp add: end_of_cycle_def sweep_def)
    have r: "run cfg caps (inp # inps) st = run cfg caps inps (snd (poll_cycle cfg caps inp st))"
      by (rule run_Cons_Running) (simp add: p end_of_cycle_effect)
    show ?thesis
      using q r unfolding p by (simp add: end_of_cycle_effect)
  qed
  from 1 2 3 4 5 6 show ?thesis by blast
qed

theorem fetch_camera_frame_soft_failure_witness:
  "fetch_camera_frame (Response 200 (JsonObject [''timestamp'' \<mapsto> PStr ''t1''])) = (PNone, PNone)
   \<and> fetch_camera_frame (Response 404 (JsonObject [''frame'' \<mapsto> PStr ''AAAA''])) = (PNone, PNone)
   \<and> fetch_camera_frame (response store_empty) = (PNone, PNone)
   \<and> fst (poll_cycle source_settings scripted_caps store_empty initial_state) = Running
   \<and> decodes (trace (snd (poll_cycle source_settings scripted_caps store_empty initial_state))) = 0"
proof -
  have a: "[''timestamp'' \<mapsto> PStr ''t1''] ''frame'' = None" by simp
  have b: "(404::nat) \<noteq> 200" by simp
  have c: "fetch_camera_frame (response store_empty) = (PNone, PNone)"
    by (simp add: store_empty_def fetch_camera_frame_def)
  have d: "decodes (trace initial_state) = 0"
    by (simp add: initial_state_def)
  from a fetch_camera_frame_soft_failure
         [where data = "[''timestamp'' \<mapsto> PStr ''t1'']" and code = 200]
  have 1: "fetch_camera_frame (Response 200 (JsonObject [''timestamp'' \<mapsto> PStr ''t1'']))
             = (PNone, PNone)" by blast
  from b fetch_camera_frame_soft_failure
         [where code = 404 and body = "JsonObject [''frame'' \<mapsto> PStr ''AAAA'']"]
  have 2: "fetch_camera_frame (Response 404 (JsonObject [''frame'' \<mapsto> PStr ''AAAA'']))
             = (PNone, PNone)" by blast
  from c fetch_camera_frame_soft_failure
         [where inp = store_empty and cfg = source_settings and caps = scripted_caps
            and st = initial_state]
  have 3: "fst (poll_cycle source_settings scripted_caps store_empty initial_state) = Running
     \<and> decodes (trace (snd (poll_cycle source_settings scripted_caps store_empty initial_state)))
         = decodes (trace initial_state)" by blast
  from 1 2 c 3 d show ?thesis by simp
qed


section \<open>Properties of the reactions\<close>










section \<open>The cadence of the sweep\<close>

lemma run_no_frames:
  assumes "\<forall>inp \<in> set inps. fetch_camera_frame (response inp) = (PNone, PNone)"
  shows "fst (run cfg caps inps st) = Running
       \<and> fetches (trace (snd (run cfg caps inps st))) = fetches (trace st) + length inps
       \<and> sweeps (trace (snd (run cfg caps inps st))) =
           sweeps (trace st) + (if frame_count st mod 100 = 0 then length inps else 0)
       \<and> frame_count (snd (run cfg caps inps st)) = frame_count st"
  using assms
proof (induction inps arbitrary: st)
  case Nil
  then show ?case by simp
next
  case (Cons inp inps)
  let ?st' = "snd (poll_cycle cfg caps inp st)"
  from Cons.prems have p: "poll_cycle cfg caps inp st = end_of_cycle caps (emit Fetch st)"
    by (simp add: poll_cycle_no_frame)
  have r: "run cfg caps (inp # inps) st = run cfg caps inps ?st'"
    by (rule run_Cons_Running) (simp add: p end_of_cycle_effect)
  have c: "frame_count ?st' = frame_count st" "fetches (trace ?st') = fetches (trace st) + 1"
    "sweeps (trace ?st') = sweeps (trace st) + (if frame_count st mod 100 = 0 then 1 else 0)"
    by (simp_all add: p end_of_cycle_effect)
  from Cons.prems have "\<forall>inp \<in> set inps. fetch_camera_frame (response inp) = (PNone, PNone)"
    by simp
  from Cons.IH [OF this, of ?st'] show ?case
    unfolding r by (simp add: c)
qed

text \<open>
  Claim C2, as stated, fails: the sweep is tied to the frame counter, not to the number
  of passes. While no frame has been seen the sweep runs in every pass (three passes,
  three sweeps); once one frame has been seen and no further one arrives it never runs
  (two hundred passes, no sweep).
\<close>

theorem sweep_every_100_cycles_counterexample:
  "fetches (trace (snd (run source_settings scripted_caps
       (replicate 3 store_empty) initial_state))) = 3
   \<and> sweeps (trace (snd (run source_settings scripted_caps
       (replicate 3 store_empty) initial_state))) = 3
   \<and> fetches (trace (snd (run source_settings scripted_caps
       (store_frame ''blank'' ''t1'' # replicate 199 store_empty) initial_state))) = 200
   \<and> sweeps (trace (snd (run source_settings scripted_caps
       (store_frame ''blank'' ''t1'' # replicate 199 store_empty) initial_state))) = 0"
proof -
  have e: "\<forall>inp \<in> set (replicate n store_empty).
             fetch_camera_frame (response inp) = (PNone, PNone)" for n
    by (simp add: store_empty_def fetch_camera_frame_def)
  have a: "fetches (trace (snd (run source_settings scripted_caps
             (replicate 3 store_empty) initial_state))) = 3
     \<and> sweeps (trace (snd (run source_settings scripted_caps
             (replicate 3 store_empty) initial_state))) = 3"
    using run_no_frames [OF e, of source_settings scripted_caps 3 initial_state]
    by (simp add: initial_state_def)
  let ?inp = "store_frame ''blank'' ''t1''"
  let ?st1 = "snd (poll_cycle source_settings scripted_caps ?inp initial_state)"
  have f: "fetch_camera_frame (response ?inp) = (PStr ''blank'', PStr ''t1'')"
    by (simp add: store_frame_def fetch_camera_frame_def)
  have n: "new_frame ?inp initial_state"
    by (simp add: new_frame_def f initial_state_def)
  have k: "waitkey ?inp AND 255 \<noteq> 113"
    by (simp add: store_frame_def)
  have d: "decode_frame scripted_caps (PStr ''blank'') = Some ''blank''"
    by (simp add: decode_frame_def b64_text_def scripted_caps_def)
  have s: "scan_qr_codes scripted_caps ''blank'' = Inr []"
    by (simp add: scan_qr_codes_def scripted_caps_def)
  have run1: "fst (poll_cycle source_settings scripted_caps ?inp initial_state) = Running"
    using n k by (simp add: poll_cycle_def new_frame_def f d s Let_def end_of_cycle_effect)
  have c1: "frame_count ?st1 = 1" "fetches (trace ?st1) = 1" "sweeps (trace ?st1) = 0"
    using n run1 by (simp_all add: poll_cycle_effect initial_state_def)
  have r: "run source_settings scripted_caps (?inp # replicate 199 store_empty) initial_state
         = run source_settings scripted_caps (replicate 199 store_empty) ?st1"
    using run1 by (rule run_Cons_Running)
  have b: "fetches (trace (snd (run source_settings scripted_caps
             (?inp # replicate 199 store_empty) initial_state))) = 200
     \<and> sweeps (trace (snd (run source_settings scripted_caps
             (?inp # replicate 199 store_empty) initial_state))) = 0"
    unfolding r
    using run_no_frames [OF e, of source_settings scripted_caps 199 ?st1]
    by (simp add: c1)
  from a b show ?thesis by blast
qed

text \<open>
  Claim C2, amended. A pass that reaches the end of the loop body runs the sweep exactly
  when the frame counter, which counts the new frames seen so far and not the passes,
  is then a multiple of 100 (zero included); a pass that leaves the loop runs no sweep.
  The passes that fetch no frame, an unchanged token or a frame that fails to decode
  reach the end of the body, and so does a pass that processes a frame unless the quit
  key is pressed.
\<close>

theorem sweep_on_frame_count:
  "(fst (poll_cycle cfg caps inp st) = Running \<longrightarrow>
      sweeps (trace (snd (poll_cycle cfg caps inp st))) =
        sweeps (trace st) +
          (if frame_count (snd (poll_cycle cfg caps inp st)) mod 100 = 0 then 1 else 0))
   \<and> (fst (poll_cycle cfg caps inp st) \<noteq> Running \<longrightarrow>
      sweeps (trace (snd (poll_cycle cfg caps inp st))) = sweeps (trace st))
   \<and> frame_count (snd (poll_cycle cfg caps inp st)) =
        frame_count st + (if new_frame inp st then 1 else 0)
   \<and> (\<not> new_frame inp st \<longrightarrow> fst (poll_cycle cfg caps inp st) = Running)
   \<and> (new_frame inp st \<and> decode_frame caps (fst (fetch_camera_frame (response inp))) = None \<longrightarrow>
        fst (poll_cycle cfg caps inp st) = Running)
   \<and> (new_frame inp st \<and> decode_frame caps (fst (fetch_camera_frame (response inp))) = Some frame
        \<and> scan_qr_codes caps frame = Inr qr_codes
        \<and> (SHOW_PREVIEW cfg \<longrightarrow> waitkey inp AND 255 \<noteq> 113) \<longrightarrow>
        fst (poll_cycle cfg caps inp st) = Running)"
proof -
  have a: "sweeps (trace (snd (poll_cycle cfg caps inp st))) =
     sweeps (trace st) +
       (if fst (poll_cycle cfg caps inp st) = Running
           \<and> frame_count (snd (poll_cycle cfg caps inp st)) mod 100 = 0 then 1 else 0)"
    by (rule poll_cycle_effect)
  have b: "frame_count (snd (poll_cycle cfg caps inp st)) =
        frame_count st + (if new_frame inp st then 1 else 0)"
    by (rule poll_cycle_effect)
  have c: "\<not> new_frame inp st \<longrightarrow> fst (poll_cycle cfg caps inp st) = Running"
    by (simp add: poll_cycle_effect)
  have d: "new_frame inp st \<and> decode_frame caps (fst (fetch_camera_frame (response inp))) = None \<longrightarrow>
        fst (poll_cycle cfg caps inp st) = Running"
    by (simp add: poll_cycle_def new_frame_def Let_def split_beta end_of_cycle_effect)
  have e: "new_frame inp st \<and> decode_frame caps (fst (fetch_camera_frame (response inp))) = Some frame
        \<and> scan_qr_codes caps frame = Inr qr_codes
        \<and> (SHOW_PREVIEW cfg \<longrightarrow> waitkey inp AND 255 \<noteq> 113) \<longrightarrow>
        fst (poll_cycle cfg caps inp st) = Running"
    by (auto simp: poll_cycle_def new_frame_def Let_def split_beta end_of_cycle_effect)
  from a b c d e show ?thesis by simp
qed

theorem sweep_on_frame_count_witness:
  "fst (poll_cycle source_settings scripted_caps store_empty initial_state) = Running
   \<and> sweeps (trace (snd (poll_cycle source_settings scripted_caps store_empty initial_state))) = 1
   \<and> fst (poll_cycle source_settings scripted_caps (store_frame '','' ''t1'') initial_state) = Running
   \<and> fst (poll_cycle source_settings scripted_caps (store_frame ''blank'' ''t1'') initial_state) = Running
   \<and> frame_count (snd (poll_cycle source_settings scripted_caps
         (store_frame ''blank'' ''t1'') initial_state)) = 1
   \<and> sweeps (trace (snd (poll_cycle source_settings scripted_caps
         (store_frame ''blank'' ''t1'') initial_state))) = 0
   \<and> fst (poll_cycle source_settings scripted_caps (store_frame ''corrupt'' ''t1'') initial_state)
       \<noteq> Running
   \<and> sweeps (trace (snd (poll_cycle source_settings scripted_caps
         (store_frame ''corrupt'' ''t1'') initial_state))) = 0"
proof -
  have i: "sweeps (trace initial_state) = 0" "frame_count initial_state = 0"
    by (simp_all add: initial_state_def)
  have n0: "\<not> new_frame store_empty initial_state"
    by (simp add: new_frame_def store_empty_def fetch_camera_frame_def)
  note t0 = sweep_on_frame_count [where cfg = source_settings and caps = scripted_caps
      and inp = store_empty and st = initial_state]
  from n0 t0 have r0: "fst (poll_cycle source_settings scripted_caps store_empty initial_state) = Running"
    by blast
  from n0 r0 t0 i
  have s0: "sweeps (trace (snd (poll_cycle source_settings scripted_caps store_empty initial_state))) = 1"
    by simp
  have f: "fetch_camera_frame (response (store_frame x ''t1'')) = (PStr x, PStr ''t1'')" for x
    by (simp add: store_frame_def fetch_camera_frame_def)
  have n: "x \<noteq> [] \<Longrightarrow> new_frame (store_frame x ''t1'') initial_state" for x
    by (simp add: new_frame_def f initial_state_def)
  have d1: "decode_frame scripted_caps (fst (fetch_camera_frame (response (store_frame '','' ''t1''))))
              = None"
    by (simp add: f decode_frame_def b64_text_def scripted_caps_def)
  from n [of "'',''"] d1
    sweep_on_frame_count [where cfg = source_settings and caps = scripted_caps
      and inp = "store_frame '','' ''t1''" and st = initial_state]
  have r1: "fst (poll_cycle source_settings scripted_caps (store_frame '','' ''t1'') initial_state)
              = Running"
    by simp
  have d2: "decode_frame scripted_caps (fst (fetch_camera_frame (response (store_frame ''blank'' ''t1''))))
              = Some ''blank''"
    by (simp add: f decode_frame_def b64_text_def scripted_caps_def)
  have s2: "scan_qr_codes scripted_caps ''blank'' = Inr []"
    by (simp add: scan_qr_codes_def scripted_caps_def)
  have k2: "SHOW_PREVIEW source_settings \<longrightarrow> waitkey (store_frame ''blank'' ''t1'') AND 255 \<noteq> 113"
    by (simp add: store_frame_def)
  note t2 = sweep_on_frame_count [where cfg = source_settings and caps = scripted_caps
      and inp = "store_frame ''blank'' ''t1''" and st = initial_state and frame = "''blank''"
      and qr_codes = "[]"]
  from n [of "''blank''"] d2 s2 k2 t2
  have r2: "fst (poll_cycle source_settings scripted_caps (store_frame ''blank'' ''t1'') initial_state)
              = Running"
    by simp
  from n [of "''blank''"] t2 i
  have c2: "frame_count (snd (poll_cycle source_settings scripted_caps
         (store_frame ''blank'' ''t1'') initial_state)) = 1"
    by simp
  from r2 c2 t2 i
  have w2: "sweeps (trace (snd (poll_cycle source_settings scripted_caps
         (store_frame ''blank'' ''t1'') initial_state))) = 0"
    by simp
  have r3: "fst (poll_cycle source_settings scripted_caps (store_frame ''corrupt'' ''t1'') initial_state)
       \<noteq> Running"
    by (simp add: poll_cycle_def f initial_state_def decode_frame_def b64_text_def
          scan_qr_codes_def scripted_caps_def)
  from r3 i sweep_on_frame_count [where cfg = source_settings and caps = scripted_caps
      and inp = "store_frame ''corrupt'' ''t1''" and st = initial_state]
  have w3: "sweeps (trace (snd (poll_cycle source_settings scripted_caps
         (store_frame ''corrupt'' ''t1'') initial_state))) = 0"
    by simp
  from r0 s0 r1 r2 c2 w2 r3 w3 show ?thesis by blast
qed

section \<open>A failing detection\<close>

text \<open>
  Claim C3 does not hold of the code: when the detector raises on a decoded frame,
  nothing catches the exception, the loop ends, and the next frame is never fetched.
\<close>

theorem scan_failure_ends_run:
  "run source_settings scripted_caps
     [store_frame ''corrupt'' ''t1'', store_frame ''https://example.com/x'' ''t2''] initial_state
   = (Crashed DetectorError,
      \<lparr>recent_qrs = [], last_timestamp = PStr ''t1'', frame_count = 1, qr_count = 0,
       clock_reads = 0, trace = [Fetch, Decode (PStr ''corrupt''), Scan]\<rparr>)"
  by (simp add: poll_cycle_def store_frame_def fetch_camera_frame_def initial_state_def
        decode_frame_def b64_text_def scan_qr_codes_def scripted_caps_def emit_def)


section \<open>Change detection by token\<close>




section \<open>Frames without a timestamp\<close>










end
